theory Spec2Isabelle
  imports Main "HOL-Library.Multiset" "HOL-Library.Sublist"
begin

section \<open>Blog list component (src/js/BlogList.js)\<close>

text \<open>
  A shallow embedding of the class \<^verbatim>\<open>BlogList\<close>. Every method becomes a function on an
  explicit component state; a method that can throw returns the thrown error (if any)
  together with the state reached, because the mutations made before a throw persist.
\<close>

subsection \<open>Records of the master collection\<close>

text \<open>
  One element of the JSON array returned by the API. Each property the component reads is
  either absent (\<open>None\<close>, JavaScript \<^verbatim>\<open>undefined\<close>) or holds a value of the type the
  API documents: strings, and a whole number of minutes for \<^verbatim>\<open>reading_time\<close>.
  The property \<^verbatim>\<open>image\<close> is called \<open>image_src\<close> here.
\<close>

record blog =
  title :: "string option"
  content :: "string option"
  category :: "string option"
  reading_time :: "int option"
  published_date :: "string option"
  author :: "string option"
  image_src :: "string option"

subsection \<open>Host environment\<close>

text \<open>
  The routines of the JavaScript host whose results depend on the engine or the locale
  are parameters of the model: \<^verbatim>\<open>Date\<close> parsing (\<open>None\<close> is an invalid date, whose time
  value is NaN), \<^verbatim>\<open>String.prototype.localeCompare\<close> and
  \<^verbatim>\<open>String.prototype.toLowerCase\<close>.
\<close>

record host =
  parseDate :: "string \<Rightarrow> int option"
  localeCompare :: "string \<Rightarrow> string \<Rightarrow> int"
  toLowerCase :: "string \<Rightarrow> string"

text \<open>\<^verbatim>\<open>x || d\<close> on an optional string: \<^verbatim>\<open>undefined\<close> and the empty string are falsy.\<close>

definition or_str :: "string option \<Rightarrow> string \<Rightarrow> string" where
  "or_str x d = (case x of None \<Rightarrow> d | Some s \<Rightarrow> if s = [] then d else s)"

text \<open>\<^verbatim>\<open>x || d\<close> on an optional number: \<^verbatim>\<open>undefined\<close> and \<open>0\<close> are falsy.\<close>

definition or_num :: "int option \<Rightarrow> int \<Rightarrow> int" where
  "or_num x d = (case x of None \<Rightarrow> d | Some n \<Rightarrow> if n = 0 then d else n)"

text \<open>\<^verbatim>\<open>s.includes(t)\<close>: does \<open>t\<close> occur in \<open>s\<close> as a contiguous run of characters.\<close>

fun str_includes :: "string \<Rightarrow> string \<Rightarrow> bool" where
  "str_includes [] t = (t = [])"
| "str_includes (c # s) t = (prefix t (c # s) \<or> str_includes s t)"

text \<open>
  \<^verbatim>\<open>new Date(v)\<close> followed by the conversion to a number that the subtraction performs:
  the time value in milliseconds, or \<open>None\<close> for NaN. \<^verbatim>\<open>new Date(undefined)\<close> is an
  invalid date.
\<close>

definition date_value :: "host \<Rightarrow> string option \<Rightarrow> int option" where
  "date_value H v = (case v of None \<Rightarrow> None | Some s \<Rightarrow> parseDate H s)"

text \<open>Subtraction of two numbers either of which may be NaN.\<close>

definition num_minus :: "int option \<Rightarrow> int option \<Rightarrow> int option" where
  "num_minus x y =
     (case x of None \<Rightarrow> None
      | Some a \<Rightarrow> (case y of None \<Rightarrow> None | Some b \<Rightarrow> Some (a - b)))"

subsection \<open>The comparator of the sort step (lines 111 to 125)\<close>

text \<open>
  The arrow function handed to \<^verbatim>\<open>sort\<close>, with the \<^verbatim>\<open>switch\<close> on the sort type in the
  order of the source. The result is a number; \<open>None\<close> is NaN.
\<close>

definition sort_compare :: "host \<Rightarrow> string \<Rightarrow> blog \<Rightarrow> blog \<Rightarrow> int option" where
  "sort_compare H sortType a b =
     (if sortType = ''date'' then
        num_minus (date_value H (published_date b)) (date_value H (published_date a))
      else if sortType = ''reading_time'' then
        Some (or_num (reading_time a) 0 - or_num (reading_time b) 0)
      else if sortType = ''category'' then
        Some (localeCompare H (or_str (category a) []) (or_str (category b) []))
      else Some 0)"

subsection \<open>Array.prototype.sort\<close>

text \<open>
  ECMAScript's sort calls the comparator, reads a NaN result as \<open>+0\<close>, and is stable.
  Whenever the comparator is consistent, every conforming engine returns the list that
  this stable insertion sort returns; for an inconsistent comparator the order is left
  to the engine, and the insertion sort is one admissible choice.
\<close>

definition sort_gt :: "('a \<Rightarrow> 'a \<Rightarrow> int option) \<Rightarrow> 'a \<Rightarrow> 'a \<Rightarrow> bool" where
  "sort_gt cmp x y = (case cmp x y of None \<Rightarrow> False | Some v \<Rightarrow> 0 < v)"

fun sort_insert :: "('a \<Rightarrow> 'a \<Rightarrow> int option) \<Rightarrow> 'a \<Rightarrow> 'a list \<Rightarrow> 'a list" where
  "sort_insert cmp x [] = [x]"
| "sort_insert cmp x (y # ys) =
     (if sort_gt cmp x y then y # sort_insert cmp x ys else x # y # ys)"

fun array_sort :: "('a \<Rightarrow> 'a \<Rightarrow> int option) \<Rightarrow> 'a list \<Rightarrow> 'a list" where
  "array_sort cmp [] = []"
| "array_sort cmp (x # xs) = sort_insert cmp x (array_sort cmp xs)"

subsection \<open>The callbacks of the two filters\<close>

text \<open>Line 92: the search term read from the search input, lower-cased.\<close>

definition search_term :: "host \<Rightarrow> string \<Rightarrow> string" where
  "search_term H v = toLowerCase H (or_str (Some v) [])"

text \<open>Lines 94 and 95: the callback of the search filter.\<close>

definition search_match :: "host \<Rightarrow> string \<Rightarrow> blog \<Rightarrow> bool" where
  "search_match H searchTerm blog =
     str_includes (toLowerCase H (or_str (title blog) [])) searchTerm"

text \<open>Lines 103 and 104: the callback of the category filter, a strict equality.\<close>

definition category_match :: "string \<Rightarrow> blog \<Rightarrow> bool" where
  "category_match categoryFilter blog = (category blog = Some categoryFilter)"

subsection \<open>Errors\<close>

datatype js_error = Error string | TypeError string

fun message :: "js_error \<Rightarrow> string" where
  "message (Error m) = m"
| "message (TypeError m) = m"

text \<open>The TypeError of reading or writing a property of \<^verbatim>\<open>null\<close> (V8's wording).\<close>

definition null_read :: "string \<Rightarrow> js_error" where
  "null_read prop =
     TypeError (''Cannot read properties of null (reading '' @ [CHR 0x27] @ prop @ [CHR 0x27] @ '')'')"

definition null_set :: "string \<Rightarrow> js_error" where
  "null_set prop =
     TypeError (''Cannot set properties of null (setting '' @ [CHR 0x27] @ prop @ [CHR 0x27] @ '')'')"

subsection \<open>Numbers in template literals\<close>

text \<open>The decimal digit of a number below ten.\<close>

definition digit_char :: "nat \<Rightarrow> char" where
  "digit_char d = ''0123456789'' ! d"

fun nat_toString :: "nat \<Rightarrow> string" where
  "nat_toString n =
     (if n < 10 then [digit_char n] else nat_toString (n div 10) @ [digit_char (n mod 10)])"

declare nat_toString.simps [simp del]

definition int_toString :: "int \<Rightarrow> string" where
  "int_toString i = (if i < 0 then CHR ''-'' # nat_toString (nat (- i)) else nat_toString (nat i))"

subsection \<open>The rendered list (lines 149 to 163)\<close>

text \<open>
  One \<^verbatim>\<open>article\<close> of the template, as the values interpolated into it. The date is the
  time value handed to \<^verbatim>\<open>toLocaleDateString\<close>, whose text depends on the locale.
\<close>

record card =
  card_image :: "(string \<times> string) option"
  card_title :: string
  card_excerpt :: string
  card_author :: string
  card_category :: string
  card_reading_time :: string
  card_date :: "int option"

text \<open>\<^verbatim>\<open>${item.title}\<close>: an absent property is interpolated as the text undefined.\<close>

definition interpolate :: "string option \<Rightarrow> string" where
  "interpolate x = (case x of None \<Rightarrow> ''undefined'' | Some s \<Rightarrow> s)"

definition blog_card :: "host \<Rightarrow> blog \<Rightarrow> card" where
  "blog_card H item =
     \<lparr>card_image =
        (if or_str (image_src item) [] \<noteq> []
         then Some (or_str (image_src item) [], interpolate (title item)) else None),
      card_title = interpolate (title item),
      card_excerpt = take 150 (or_str (content item) []) @ ''...'',
      card_author = or_str (author item) ''Unknown'',
      card_category = or_str (category item) ''General'',
      card_reading_time = int_toString (or_num (reading_time item) 5) @ '' min read'',
      card_date = date_value H (published_date item)\<rparr>"

text \<open>
  The \<^verbatim>\<open>innerHTML\<close> of the list container: emptied, the no-results paragraph, or the
  joined cards.
\<close>

datatype inner_html = Blank | NoResults | Cards "card list"

subsection \<open>Array.prototype.slice\<close>

text \<open>Negative arguments count from the end of the array, and both are clamped.\<close>

definition array_slice :: "int \<Rightarrow> int \<Rightarrow> 'a list \<Rightarrow> 'a list" where
  "array_slice start end xs =
     (let len = int (length xs);
          k = (if start < 0 then max (len + start) 0 else min start len);
          final = (if end < 0 then max (len + end) 0 else min end len)
      in take (nat (final - k)) (drop (nat k) xs))"

subsection \<open>Component state\<close>

text \<open>
  The elements found by \<^verbatim>\<open>querySelector\<close> in the constructor; \<open>None\<close> is \<^verbatim>\<open>null\<close>.
  Of the loading indicator only the presence of the class \<^verbatim>\<open>hidden\<close> matters, of a
  control only its value.
\<close>

record error_element =
  hidden :: bool
  textContent :: string

record container =
  blog_list_content :: "inner_html option"
  loading_indicator :: "bool option"
  error_container :: "error_element option"
  sort_select :: "string option"
  filter_select :: "string option"
  search_input :: "string option"

text \<open>
  Arrays are objects with identity: \<open>heap\<close> maps an address to the elements of the array
  stored there and \<open>next_addr\<close> is the first address not yet allocated. The fields
  \<open>items\<close> and \<open>filteredItems\<close> hold addresses, so that an in-place \<^verbatim>\<open>sort\<close> shows on
  every reference to the sorted array. \<open>listening\<close> records that setupEventListeners has
  run, \<open>searchTimer\<close> that a debounce timeout is pending.
\<close>

record blog_list =
  listContainer :: "inner_html option"
  loadingIndicator :: "bool option"
  errorContainer :: "error_element option"
  sortSelect :: "string option"
  filterSelect :: "string option"
  searchInput :: "string option"
  heap :: "nat \<Rightarrow> blog list"
  next_addr :: nat
  items :: nat
  filteredItems :: nat
  page :: nat
  perPage :: nat
  listening :: bool
  searchTimer :: bool

definition new_array :: "blog list \<Rightarrow> blog_list \<Rightarrow> nat \<times> blog_list" where
  "new_array xs st =
     (next_addr st,
      st\<lparr>heap := (heap st)(next_addr st := xs), next_addr := Suc (next_addr st)\<rparr>)"

text \<open>Lines 9 to 27. The two array literals are two fresh arrays.\<close>

definition constructor :: "container \<Rightarrow> blog_list" where
  "constructor c =
     \<lparr>listContainer = blog_list_content c,
      loadingIndicator = loading_indicator c,
      errorContainer = error_container c,
      sortSelect = sort_select c,
      filterSelect = filter_select c,
      searchInput = search_input c,
      heap = (\<lambda>a. []),
      next_addr = 2,
      items = 0,
      filteredItems = 1,
      page = 1,
      perPage = 10,
      listening = False,
      searchTimer = False\<rparr>"

subsection \<open>Methods\<close>

definition showLoading :: "blog_list \<Rightarrow> blog_list" where
  "showLoading st = st\<lparr>loadingIndicator := map_option (\<lambda>h. False) (loadingIndicator st)\<rparr>"

definition hideLoading :: "blog_list \<Rightarrow> blog_list" where
  "hideLoading st = st\<lparr>loadingIndicator := map_option (\<lambda>h. True) (loadingIndicator st)\<rparr>"

text \<open>Lines 186 to 192.\<close>

definition showError :: "js_error \<Rightarrow> blog_list \<Rightarrow> js_error option \<times> blog_list" where
  "showError err st =
     (case errorContainer st of
        None \<Rightarrow> (None, st)
      | Some ec \<Rightarrow>
          let st1 = st\<lparr>errorContainer := Some (ec\<lparr>hidden := False,
                         textContent := ''Error: '' @ message err
                                        @ ''. Please check the console for details.''\<rparr>)\<rparr>
          in (case listContainer st1 of
                None \<Rightarrow> (Some (null_set ''innerHTML''), st1)
              | Some old \<Rightarrow> (None, hideLoading (st1\<lparr>listContainer := Some Blank\<rparr>))))"

text \<open>Lines 137 to 166.\<close>

definition render :: "host \<Rightarrow> blog_list \<Rightarrow> js_error option \<times> blog_list" where
  "render H st =
     (let end = page st * perPage st;
          slice = array_slice 0 (int end) (heap st (filteredItems st))
      in case listContainer st of
           None \<Rightarrow> (Some (null_set ''innerHTML''), st)
         | Some old \<Rightarrow>
             if length slice = 0 then (None, st\<lparr>listContainer := Some NoResults\<rparr>)
             else (None, st\<lparr>listContainer := Some (Cards (map (blog_card H) slice))\<rparr>))"

text \<open>
  Lines 88 to 131. The spread and each \<^verbatim>\<open>filter\<close> build a new array; \<^verbatim>\<open>sort\<close> rewrites
  the array it is called on. Reading \<^verbatim>\<open>value\<close> of a control that is \<^verbatim>\<open>null\<close> throws.
\<close>

definition applyFiltersAndSorting :: "host \<Rightarrow> blog_list \<Rightarrow> js_error option \<times> blog_list" where
  "applyFiltersAndSorting H st =
     (let (workingList, s0) = new_array (heap st (items st)) st in
      case searchInput s0 of
        None \<Rightarrow> (Some (null_read ''value''), s0)
      | Some v \<Rightarrow>
     (let searchTerm = search_term H v;
          (workingList, s1) =
             (if searchTerm \<noteq> []
              then new_array (filter (search_match H searchTerm) (heap s0 workingList)) s0
              else (workingList, s0)) in
      case filterSelect s1 of
        None \<Rightarrow> (Some (null_read ''value''), s1)
      | Some categoryFilter \<Rightarrow>
     (let (workingList, s2) =
             (if categoryFilter \<noteq> []
              then new_array (filter (category_match categoryFilter) (heap s1 workingList)) s1
              else (workingList, s1)) in
      case sortSelect s2 of
        None \<Rightarrow> (Some (null_read ''value''), s2)
      | Some sortType \<Rightarrow>
     (let s3 =
             (if sortType \<noteq> []
              then s2\<lparr>heap := (heap s2)(workingList :=
                                array_sort (sort_compare H sortType) (heap s2 workingList))\<rparr>
              else s2)
      in render H (s3\<lparr>filteredItems := workingList\<rparr>)))))"

text \<open>Lines 79 to 83.\<close>

definition onControlChange :: "host \<Rightarrow> blog_list \<Rightarrow> js_error option \<times> blog_list" where
  "onControlChange H st = applyFiltersAndSorting H (st\<lparr>page := 1\<rparr>)"

text \<open>
  Lines 64 to 74. A listener is attached to each control that exists; no event can come
  from a control that does not.
\<close>

definition setupEventListeners :: "blog_list \<Rightarrow> blog_list" where
  "setupEventListeners st = st\<lparr>listening := True\<rparr>"

subsection \<open>Loading\<close>

text \<open>
  What \<^verbatim>\<open>fetch\<close> and \<^verbatim>\<open>res.json()\<close> can do: the promise of \<^verbatim>\<open>fetch\<close> rejects, or it
  yields a response with a status; \<^verbatim>\<open>json()\<close> rejects, or yields a value that is an
  array of records (\<open>Some\<close>) or anything else (\<open>None\<close>).
\<close>

datatype response_body = JsonRejected js_error | JsonValue "blog list option"

datatype fetch_result = Rejected js_error | Response nat response_body

text \<open>\<^verbatim>\<open>res.ok\<close>: the status is in the range 200 to 299.\<close>

definition ok :: "nat \<Rightarrow> bool" where
  "ok status = (200 \<le> status \<and> status \<le> 299)"

text \<open>Lines 50 to 54, the body of the \<^verbatim>\<open>try\<close> in fetchData.\<close>

definition fetchData_try :: "fetch_result \<Rightarrow> blog_list \<Rightarrow> js_error option \<times> blog_list" where
  "fetchData_try r st =
     (case r of
        Rejected e \<Rightarrow> (Some e, st)
      | Response status body \<Rightarrow>
          if \<not> ok status
          then (Some (Error (''Failed to fetch blogs (Status: '' @ nat_toString status @ '')'')), st)
          else (case body of
                  JsonRejected e \<Rightarrow> (Some e, st)
                | JsonValue None \<Rightarrow> (Some (Error ''Unexpected API response structure''), st)
                | JsonValue (Some data) \<Rightarrow>
                    (let (a, st1) = new_array data st in (None, st1\<lparr>items := a\<rparr>))))"

text \<open>Lines 48 to 59: whatever the \<^verbatim>\<open>try\<close> throws is wrapped and thrown again.\<close>

definition fetchData :: "fetch_result \<Rightarrow> blog_list \<Rightarrow> js_error option \<times> blog_list" where
  "fetchData r st =
     (case fetchData_try r st of
        (Some error, st1) \<Rightarrow> (Some (Error (''Data loading failed: '' @ message error)), st1)
      | (None, st1) \<Rightarrow> (None, st1))"

text \<open>
  Lines 32 to 43. The \<^verbatim>\<open>catch\<close> runs showError, which can itself throw; the \<^verbatim>\<open>finally\<close>
  runs hideLoading in every case, and an error thrown by the \<^verbatim>\<open>catch\<close> leaves init.
\<close>

definition init :: "host \<Rightarrow> fetch_result \<Rightarrow> blog_list \<Rightarrow> js_error option \<times> blog_list" where
  "init H r st =
     (let st0 = showLoading st;
          (thrown, st1) =
             (case fetchData r st0 of
                (Some err, s) \<Rightarrow> (Some err, s)
              | (None, s) \<Rightarrow> applyFiltersAndSorting H (setupEventListeners s));
          (escaped, st2) =
             (case thrown of
                None \<Rightarrow> (None, st1)
              | Some err \<Rightarrow> showError err st1)
      in (escaped, hideLoading st2))"

subsection \<open>Events\<close>

text \<open>
  The user changes a control that exists; its listener, if attached, runs. An input in
  the search field only starts the timeout (lines 70 to 73), and onControlChange runs
  when the timeout expires.
\<close>

datatype event = SortChange string | FilterChange string | SearchInput string | SearchTimeout

definition dispatch :: "host \<Rightarrow> event \<Rightarrow> blog_list \<Rightarrow> js_error option \<times> blog_list" where
  "dispatch H e st =
     (case e of
        SortChange v \<Rightarrow>
          (case sortSelect st of
             None \<Rightarrow> (None, st)
           | Some old \<Rightarrow>
               if listening st then onControlChange H (st\<lparr>sortSelect := Some v\<rparr>)
               else (None, st\<lparr>sortSelect := Some v\<rparr>))
      | FilterChange v \<Rightarrow>
          (case filterSelect st of
             None \<Rightarrow> (None, st)
           | Some old \<Rightarrow>
               if listening st then onControlChange H (st\<lparr>filterSelect := Some v\<rparr>)
               else (None, st\<lparr>filterSelect := Some v\<rparr>))
      | SearchInput v \<Rightarrow>
          (case searchInput st of
             None \<Rightarrow> (None, st)
           | Some old \<Rightarrow>
               if listening st then (None, st\<lparr>searchInput := Some v, searchTimer := True\<rparr>)
               else (None, st\<lparr>searchInput := Some v\<rparr>))
      | SearchTimeout \<Rightarrow>
          if searchTimer st then onControlChange H (st\<lparr>searchTimer := False\<rparr>)
          else (None, st))"

text \<open>
  The states of a component: built by the constructor, initialised once (as main.js
  does), then driven by events.
\<close>

inductive reachable :: "host \<Rightarrow> blog_list \<Rightarrow> bool" for H :: host where
  constructed: "reachable H (constructor c)"
| initialised: "reachable H (snd (init H r (constructor c)))"
| handled: "reachable H st \<Longrightarrow> reachable H (snd (dispatch H e st))"

subsection \<open>The derived view as a function of its inputs\<close>

text \<open>
  The three blocks of applyFiltersAndSorting on plain lists: what each block leaves in
  the working list, given the value of its control.
\<close>

definition search_step :: "host \<Rightarrow> string \<Rightarrow> blog list \<Rightarrow> blog list" where
  "search_step H v xs =
     (if search_term H v \<noteq> [] then filter (search_match H (search_term H v)) xs else xs)"

definition category_step :: "string \<Rightarrow> blog list \<Rightarrow> blog list" where
  "category_step categoryFilter xs =
     (if categoryFilter \<noteq> [] then filter (category_match categoryFilter) xs else xs)"

definition sort_step :: "host \<Rightarrow> string \<Rightarrow> blog list \<Rightarrow> blog list" where
  "sort_step H sortType xs =
     (if sortType \<noteq> [] then array_sort (sort_compare H sortType) xs else xs)"

definition deriveView :: "host \<Rightarrow> blog list \<Rightarrow> string \<Rightarrow> string \<Rightarrow> string \<Rightarrow> blog list" where
  "deriveView H master v categoryFilter sortType =
     sort_step H sortType (category_step categoryFilter (search_step H v master))"

subsection \<open>Reading the state\<close>

text \<open>The master collection, the derived view, and the cards on the page.\<close>

definition master :: "blog_list \<Rightarrow> blog list" where
  "master st = heap st (items st)"

definition view :: "blog_list \<Rightarrow> blog list" where
  "view st = heap st (filteredItems st)"

definition displayed :: "blog_list \<Rightarrow> card list" where
  "displayed st = (case listContainer st of Some (Cards cs) \<Rightarrow> cs | _ \<Rightarrow> [])"

subsection \<open>A concrete host, page and records\<close>

text \<open>
  A host that lower-cases the ASCII letters, parses two dates and compares strings by
  character code; a page that has every element; a record with the four interesting
  properties.
\<close>

definition ascii_lower :: "char \<Rightarrow> char" where
  "ascii_lower c =
     (case map_of (zip ''ABCDEFGHIJKLMNOPQRSTUVWXYZ'' ''abcdefghijklmnopqrstuvwxyz'') c of
        None \<Rightarrow> c | Some d \<Rightarrow> d)"

definition example_host :: host where
  "example_host =
     \<lparr>parseDate = (\<lambda>s. if s = ''2024-01-01'' then Some 1704067200000
                        else if s = ''2024-03-01'' then Some 1709251200000 else None),
      localeCompare = (\<lambda>a b. if a = b then 0
                        else if lexordp (\<lambda>c d. (of_char c :: nat) < of_char d) a b then - 1 else 1),
      toLowerCase = map ascii_lower\<rparr>"

definition post :: "string \<Rightarrow> string \<Rightarrow> int \<Rightarrow> string \<Rightarrow> blog" where
  "post t c r d =
     \<lparr>title = Some t, content = None, category = Some c, reading_time = Some r,
      published_date = Some d, author = None, image_src = None\<rparr>"

definition full_container :: container where
  "full_container =
     \<lparr>blog_list_content = Some Blank,
      loading_indicator = Some True,
      error_container = Some \<lparr>hidden = True, textContent = []\<rparr>,
      sort_select = Some [],
      filter_select = Some [],
      search_input = Some []\<rparr>"

section \<open>Properties\<close>

subsection \<open>Host routines\<close>

lemma str_includes_iff: "str_includes s t \<longleftrightarrow> (\<exists>p q. s = p @ t @ q)"
proof (induction s)
  case Nil
  then show ?case by auto
next
  case (Cons c s)
  show ?case
  proof
    assume "str_includes (c # s) t"
    then consider "prefix t (c # s)" | "str_includes s t" by auto
    then show "\<exists>p q. c # s = p @ t @ q"
    proof cases
      case 1
      then obtain q where "c # s = t @ q" by (auto simp: prefix_def)
      then have "c # s = [] @ t @ q" by simp
      then show ?thesis by blast
    next
      case 2
      with Cons.IH obtain p q where "s = p @ t @ q" by blast
      then have "c # s = (c # p) @ t @ q" by simp
      then show ?thesis by blast
    qed
  next
    assume "\<exists>p q. c # s = p @ t @ q"
    then obtain p q where e: "c # s = p @ t @ q" by blast
    show "str_includes (c # s) t"
    proof (cases p)
      case Nil
      with e have "prefix t (c # s)" by (simp add: prefix_def)
      then show ?thesis by simp
    next
      case (Cons d p')
      with e have "s = p' @ t @ q" by simp
      with Cons.IH have "str_includes s t" by blast
      then show ?thesis by simp
    qed
  qed
qed

lemma mset_sort_insert: "mset (sort_insert cmp x xs) = add_mset x (mset xs)"
  by (induction xs) auto

lemma mset_array_sort: "mset (array_sort cmp xs) = mset xs"
  by (induction xs) (auto simp: mset_sort_insert)

lemma set_array_sort: "set (array_sort cmp xs) = set xs"
  using mset_array_sort [of cmp xs] by (metis set_mset_mset)

lemma array_slice_prefix: "array_slice 0 (int n) xs = take n xs"
  by (simp add: array_slice_def Let_def min_def)



subsection \<open>Effects of the methods\<close>

lemma render_fields:
  "heap (snd (render H st)) = heap st"
  "items (snd (render H st)) = items st"
  "filteredItems (snd (render H st)) = filteredItems st"
  "page (snd (render H st)) = page st"
  "perPage (snd (render H st)) = perPage st"
  "next_addr (snd (render H st)) = next_addr st"
  "loadingIndicator (snd (render H st)) = loadingIndicator st"
  by (simp_all add: render_def Let_def split: option.splits)

lemma apply_view:
  assumes "searchInput st = Some v" "filterSelect st = Some c" "sortSelect st = Some k"
  shows "heap (snd (applyFiltersAndSorting H st)) (filteredItems (snd (applyFiltersAndSorting H st)))
         = deriveView H (heap st (items st)) v c k"
  using assms
  by (simp add: applyFiltersAndSorting_def new_array_def Let_def render_fields deriveView_def
      sort_step_def category_step_def search_step_def)

lemma apply_frame:
  assumes "a < next_addr st"
  shows "heap (snd (applyFiltersAndSorting H st)) a = heap st a"
  using assms
  by (simp add: applyFiltersAndSorting_def new_array_def Let_def render_fields
      split: option.splits)

lemma apply_fields:
  "items (snd (applyFiltersAndSorting H st)) = items st"
  "page (snd (applyFiltersAndSorting H st)) = page st"
  "perPage (snd (applyFiltersAndSorting H st)) = perPage st"
  "loadingIndicator (snd (applyFiltersAndSorting H st)) = loadingIndicator st"
  by (simp_all add: applyFiltersAndSorting_def new_array_def Let_def render_fields
      split: option.splits)

lemma showError_fields:
  "page (snd (showError err st)) = page st"
  "items (snd (showError err st)) = items st"
  "next_addr (snd (showError err st)) = next_addr st"
  "heap (snd (showError err st)) = heap st"
  by (simp_all add: showError_def hideLoading_def Let_def split: option.splits)

lemma showError_loading:
  "loadingIndicator (snd (showError err st)) \<in> {loadingIndicator st, map_option (\<lambda>h. True) (loadingIndicator st)}"
  by (simp add: showError_def hideLoading_def Let_def split: option.splits)

lemma fetchData_page: "page (snd (fetchData r st)) = page st"
  by (simp add: fetchData_def fetchData_try_def new_array_def Let_def
      split: fetch_result.splits response_body.splits option.splits prod.splits)

lemma fetchData_loading: "loadingIndicator (snd (fetchData r st)) = loadingIndicator st"
  by (simp add: fetchData_def fetchData_try_def new_array_def Let_def
      split: fetch_result.splits response_body.splits option.splits prod.splits)

lemma fetchData_alloc: "items st < next_addr st \<Longrightarrow> items (snd (fetchData r st)) < next_addr (snd (fetchData r st))"
  by (simp add: fetchData_def fetchData_try_def new_array_def Let_def
      split: fetch_result.splits response_body.splits option.splits prod.splits)

lemma hide_map: "map_option (\<lambda>h. True) (map_option f x) = map_option (\<lambda>h. True) x"
  by (cases x) simp_all

lemma init_loading:
  "loadingIndicator (snd (init H r st)) = map_option (\<lambda>h. True) (loadingIndicator st)"
proof -
  obtain e1 s1 where f: "fetchData r (showLoading st) = (e1, s1)" by (cases "fetchData r (showLoading st)")
  have l1: "loadingIndicator s1 = map_option (\<lambda>h. False) (loadingIndicator st)"
    using fetchData_loading [of r "showLoading st"] f by (simp add: showLoading_def)
  show ?thesis
  proof (cases e1)
    case None
    obtain e2 s2 where a: "applyFiltersAndSorting H (setupEventListeners s1) = (e2, s2)"
      by (cases "applyFiltersAndSorting H (setupEventListeners s1)")
    have l2: "loadingIndicator s2 = map_option (\<lambda>h. False) (loadingIndicator st)"
      using apply_fields(4) [of H "setupEventListeners s1"] a l1 by (simp add: setupEventListeners_def)
    show ?thesis
    proof (cases e2)
      case None
      with \<open>e1 = None\<close> f a l2 show ?thesis
        by (simp add: init_def Let_def hideLoading_def hide_map)
    next
      case (Some err)
      have "loadingIndicator (snd (showError err s2)) \<in> {loadingIndicator s2, map_option (\<lambda>h. True) (loadingIndicator s2)}"
        by (rule showError_loading)
      with Some \<open>e1 = None\<close> f a l2 show ?thesis
        by (auto simp add: init_def Let_def hideLoading_def hide_map split: prod.splits)
    qed
  next
    case (Some err)
    have "loadingIndicator (snd (showError err s1)) \<in> {loadingIndicator s1, map_option (\<lambda>h. True) (loadingIndicator s1)}"
      by (rule showError_loading)
    with Some f l1 show ?thesis
      by (auto simp add: init_def Let_def hideLoading_def hide_map split: prod.splits)
  qed
qed

lemma init_page: "page (snd (init H r st)) = page st"
proof -
  obtain e1 s1 where f: "fetchData r (showLoading st) = (e1, s1)" by (cases "fetchData r (showLoading st)")
  have p1: "page s1 = page st"
    using fetchData_page [of r "showLoading st"] f by (simp add: showLoading_def)
  show ?thesis
  proof (cases e1)
    case None
    obtain e2 s2 where a: "applyFiltersAndSorting H (setupEventListeners s1) = (e2, s2)"
      by (cases "applyFiltersAndSorting H (setupEventListeners s1)")
    have p2: "page s2 = page st"
      using apply_fields(2) [of H "setupEventListeners s1"] a p1 by (simp add: setupEventListeners_def)
    show ?thesis
    proof (cases e2)
      case None
      with \<open>e1 = None\<close> f a p2 show ?thesis
        by (simp add: init_def Let_def hideLoading_def)
    next
      case (Some err)
      with \<open>e1 = None\<close> f a p2 showError_fields(1) [of err s2] show ?thesis
        by (auto simp add: init_def Let_def hideLoading_def split: prod.splits)
    qed
  next
    case (Some err)
    with f p1 showError_fields(1) [of err s1] show ?thesis
      by (auto simp add: init_def Let_def hideLoading_def split: prod.splits)
  qed
qed

lemma onControlChange_page: "page (snd (onControlChange H st)) = 1"
  by (simp add: onControlChange_def apply_fields)

lemma dispatch_page: "page st = 1 \<Longrightarrow> page (snd (dispatch H e st)) = 1"
  by (cases e) (simp_all add: dispatch_def onControlChange_page split: option.splits)

lemma reachable_page: "reachable H st \<Longrightarrow> page st = 1"
proof (induction rule: reachable.induct)
  case (constructed c)
  show ?case by (simp add: constructor_def)
next
  case (initialised r c)
  show ?case by (simp add: init_page constructor_def)
next
  case (handled st e)
  then show ?case by (simp add: dispatch_page)
qed

lemma apply_alloc:
  "items st < next_addr st \<Longrightarrow>
   items (snd (applyFiltersAndSorting H st)) < next_addr (snd (applyFiltersAndSorting H st))"
  by (simp add: applyFiltersAndSorting_def new_array_def Let_def render_fields
      split: option.splits)

lemma init_alloc:
  assumes "items st < next_addr st"
  shows "items (snd (init H r st)) < next_addr (snd (init H r st))"
proof -
  obtain e1 s1 where f: "fetchData r (showLoading st) = (e1, s1)"
    by (cases "fetchData r (showLoading st)")
  have a1: "items s1 < next_addr s1"
    using fetchData_alloc [of "showLoading st" r] f assms by (simp add: showLoading_def)
  show ?thesis
  proof (cases e1)
    case None
    obtain e2 s2 where a: "applyFiltersAndSorting H (setupEventListeners s1) = (e2, s2)"
      by (cases "applyFiltersAndSorting H (setupEventListeners s1)")
    have a2: "items s2 < next_addr s2"
      using apply_alloc [of "setupEventListeners s1" H] a a1 by (simp add: setupEventListeners_def)
    show ?thesis
    proof (cases e2)
      case None
      with \<open>e1 = None\<close> f a a2 show ?thesis
        by (simp add: init_def Let_def hideLoading_def)
    next
      case (Some err)
      with \<open>e1 = None\<close> f a a2 showError_fields(2,3) [of err s2] show ?thesis
        by (auto simp add: init_def Let_def hideLoading_def split: prod.splits)
    qed
  next
    case (Some err)
    with f a1 showError_fields(2,3) [of err s1] show ?thesis
      by (auto simp add: init_def Let_def hideLoading_def split: prod.splits)
  qed
qed

lemma dispatch_alloc:
  "items st < next_addr st \<Longrightarrow> items (snd (dispatch H e st)) < next_addr (snd (dispatch H e st))"
  by (cases e) (simp_all add: dispatch_def onControlChange_def apply_alloc split: option.splits)

lemma reachable_alloc: "reachable H st \<Longrightarrow> items st < next_addr st"
proof (induction rule: reachable.induct)
  case (constructed c)
  show ?case by (simp add: constructor_def)
next
  case (initialised r c)
  show ?case by (rule init_alloc) (simp add: constructor_def)
next
  case (handled st e)
  then show ?case by (simp add: dispatch_alloc)
qed

lemma showLoading_fields:
  "errorContainer (showLoading st) = errorContainer st"
  "listContainer (showLoading st) = listContainer st"
  by (simp_all add: showLoading_def)

lemma init_500:
  assumes "errorContainer st = Some ec" "listContainer st = Some l"
  shows "errorContainer (snd (init H (Response 500 body) st)) =
           Some (ec\<lparr>hidden := False, textContent := ''Error: Data loading failed: Failed to fetch blogs (Status: 500). Please check the console for details.''\<rparr>)"
    and "listContainer (snd (init H (Response 500 body) st)) = Some Blank"
    and "fst (init H (Response 500 body) st) = None"
proof -
  have n: "nat_toString 500 = ''500''" by code_simp
  have f: "fetchData (Response 500 body) (showLoading st) =
        (Some (Error ''Data loading failed: Failed to fetch blogs (Status: 500)''), showLoading st)"
    by (simp add: fetchData_def fetchData_try_def ok_def n)
  show "errorContainer (snd (init H (Response 500 body) st)) =
           Some (ec\<lparr>hidden := False, textContent := ''Error: Data loading failed: Failed to fetch blogs (Status: 500). Please check the console for details.''\<rparr>)"
    using assms by (simp add: init_def f showError_def showLoading_fields hideLoading_def Let_def)
  show "listContainer (snd (init H (Response 500 body) st)) = Some Blank"
    using assms by (simp add: init_def f showError_def showLoading_fields hideLoading_def Let_def)
  show "fst (init H (Response 500 body) st) = None"
    using assms by (simp add: init_def f showError_def showLoading_fields hideLoading_def Let_def)
qed

lemma render_displayed:
  assumes "listContainer st = Some old"
  shows "displayed (snd (render H st)) =
           map (blog_card H) (take (page st * perPage st) (heap st (filteredItems st)))"
  using assms by (simp add: render_def displayed_def Let_def array_slice_prefix)

lemma apply_displayed:
  assumes "listContainer st = Some old" "searchInput st = Some v" "filterSelect st = Some c"
    "sortSelect st = Some k"
  shows "displayed (snd (applyFiltersAndSorting H st)) =
           map (blog_card H) (take (page st * perPage st) (deriveView H (heap st (items st)) v c k))"
  using assms
  by (simp add: applyFiltersAndSorting_def new_array_def Let_def render_displayed deriveView_def
      sort_step_def category_step_def search_step_def)


section \<open>The claims\<close>

subsection \<open>C1: sorting by date\<close>




subsection \<open>C2: a load that fails with status 500\<close>

text \<open>
  C2, as stated, fails. fetchData catches the error it has just thrown and throws a new
  one whose message starts with the words Data loading failed, so the text on the page is
  not the one the claim gives.
\<close>

theorem status_500_text_differs:
  "map_option textContent
     (errorContainer (snd (init example_host (Response 500 (JsonValue None))
        (constructor full_container))))
   \<noteq> Some ''Error: Failed to fetch blogs (Status: 500). Please check the console for details.''"
  using init_500(1) [of "constructor full_container" "\<lparr>hidden = True, textContent = []\<rparr>" Blank
      example_host "JsonValue None"]
  by (simp add: constructor_def full_container_def)

text \<open>
  C2, amended. For every load that fails with an HTTP 500 response, on a page that has
  the error container and the list container, the error container is made visible and
  shows exactly the text below, which carries the prefix added by fetchData; the list
  area is emptied, the loading indicator is hidden, and no error leaves init.
\<close>

theorem status_500_shown:
  assumes "errorContainer st = Some ec" and "listContainer st = Some l"
  shows "errorContainer (snd (init H (Response 500 body) st)) =
           Some (ec\<lparr>hidden := False, textContent :=
             ''Error: Data loading failed: Failed to fetch blogs (Status: 500). Please check the console for details.''\<rparr>)
       \<and> listContainer (snd (init H (Response 500 body) st)) = Some Blank
       \<and> loadingIndicator (snd (init H (Response 500 body) st))
           = map_option (\<lambda>h. True) (loadingIndicator st)
       \<and> fst (init H (Response 500 body) st) = None"
  using init_500 [OF assms] init_loading by simp

theorem status_500_shown_witness:
  "errorContainer (snd (init example_host (Response 500 (JsonValue None)) (constructor full_container)))
     = Some \<lparr>hidden = False, textContent =
         ''Error: Data loading failed: Failed to fetch blogs (Status: 500). Please check the console for details.''\<rparr>
   \<and> listContainer (snd (init example_host (Response 500 (JsonValue None)) (constructor full_container)))
     = Some Blank
   \<and> loadingIndicator (snd (init example_host (Response 500 (JsonValue None)) (constructor full_container)))
     = Some True"
proof -
  have e: "errorContainer (constructor full_container) = Some \<lparr>hidden = True, textContent = []\<rparr>"
    by (simp add: constructor_def full_container_def)
  have l: "listContainer (constructor full_container) = Some Blank"
    by (simp add: constructor_def full_container_def)
  have i: "loadingIndicator (constructor full_container) = Some True"
    by (simp add: constructor_def full_container_def)
  from status_500_shown [OF e l, of example_host "JsonValue None"] i show ?thesis by simp
qed

subsection \<open>C3: the search step\<close>

text \<open>
  C3. The search step keeps exactly the records whose lower-cased title (the empty
  string when the title is absent) contains the lower-cased search term as a contiguous
  substring, in their order; an empty term keeps every record. The view that
  applyFiltersAndSorting stores is the search step followed by the category step and
  the sort step.
\<close>

theorem search_step_keeps:
  "search_step H v xs =
     filter (\<lambda>b. \<exists>p q. toLowerCase H (or_str (title b) []) = p @ toLowerCase H v @ q) xs
   \<and> (b \<in> set (search_step H v xs) \<longleftrightarrow>
        b \<in> set xs \<and> (\<exists>p q. toLowerCase H (or_str (title b) []) = p @ toLowerCase H v @ q))
   \<and> (toLowerCase H [] = [] \<longrightarrow> search_step H [] xs = xs)
   \<and> (searchInput st = Some v \<and> filterSelect st = Some c \<and> sortSelect st = Some k \<longrightarrow>
        view (snd (applyFiltersAndSorting H st))
          = sort_step H k (category_step c (search_step H v (master st))))"
proof -
  have t: "search_term H v = toLowerCase H v"
    by (simp add: search_term_def or_str_def)
  have f: "search_step H v xs =
     filter (\<lambda>b. \<exists>p q. toLowerCase H (or_str (title b) []) = p @ toLowerCase H v @ q) xs"
  proof (cases "toLowerCase H v = []")
    case True
    have "\<exists>p q. s = p @ [] @ q" for s :: string
      by (rule exI [of _ "[]"]) simp
    then have "filter (\<lambda>b. \<exists>p q. toLowerCase H (or_str (title b) []) = p @ [] @ q) xs = xs"
      by simp
    with True show ?thesis by (simp add: search_step_def t)
  next
    case False
    have "search_match H (toLowerCase H v) =
        (\<lambda>b. \<exists>p q. toLowerCase H (or_str (title b) []) = p @ toLowerCase H v @ q)"
      by (rule ext) (simp add: search_match_def str_includes_iff)
    with False show ?thesis
      by (simp add: search_step_def t)
  qed
  have m: "b \<in> set (search_step H v xs) \<longleftrightarrow>
        b \<in> set xs \<and> (\<exists>p q. toLowerCase H (or_str (title b) []) = p @ toLowerCase H v @ q)"
    unfolding f by simp
  have e: "toLowerCase H [] = [] \<longrightarrow> search_step H [] xs = xs"
    by (simp add: search_step_def search_term_def or_str_def)
  have a: "searchInput st = Some v \<and> filterSelect st = Some c \<and> sortSelect st = Some k \<longrightarrow>
        view (snd (applyFiltersAndSorting H st))
          = sort_step H k (category_step c (search_step H v (master st)))"
    using apply_view [of st v c k H] by (simp add: view_def master_def deriveView_def)
  from f m e a show ?thesis by blast
qed

theorem search_step_keeps_witness:
  "search_step example_host ''AI'' [post ''AI in 2024'' ''Tech'' 4 ''2024-01-01'',
       post ''Gardening Tips'' ''Home'' 6 ''2024-03-01'']
     = [post ''AI in 2024'' ''Tech'' 4 ''2024-01-01'']
   \<and> search_step example_host ''ai'' [post ''AI in 2024'' ''Tech'' 4 ''2024-01-01'',
       post ''Gardening Tips'' ''Home'' 6 ''2024-03-01'']
     = [post ''AI in 2024'' ''Tech'' 4 ''2024-01-01'']
   \<and> search_step example_host [] [post ''AI in 2024'' ''Tech'' 4 ''2024-01-01'',
       post ''Gardening Tips'' ''Home'' 6 ''2024-03-01'']
     = [post ''AI in 2024'' ''Tech'' 4 ''2024-01-01'', post ''Gardening Tips'' ''Home'' 6 ''2024-03-01'']"
proof -
  have l: "toLowerCase example_host [] = []" by (simp add: example_host_def)
  have 1: "search_step example_host ''AI'' [post ''AI in 2024'' ''Tech'' 4 ''2024-01-01'',
       post ''Gardening Tips'' ''Home'' 6 ''2024-03-01'']
     = [post ''AI in 2024'' ''Tech'' 4 ''2024-01-01'']"
    by (simp add: search_step_def search_term_def search_match_def or_str_def example_host_def
        post_def ascii_lower_def)
  have 2: "search_step example_host ''ai'' [post ''AI in 2024'' ''Tech'' 4 ''2024-01-01'',
       post ''Gardening Tips'' ''Home'' 6 ''2024-03-01'']
     = [post ''AI in 2024'' ''Tech'' 4 ''2024-01-01'']"
    by (simp add: search_step_def search_term_def search_match_def or_str_def example_host_def
        post_def ascii_lower_def)
  from search_step_keeps [of example_host "[]" "[post ''AI in 2024'' ''Tech'' 4 ''2024-01-01'',
       post ''Gardening Tips'' ''Home'' 6 ''2024-03-01'']"] l
  have 3: "search_step example_host [] [post ''AI in 2024'' ''Tech'' 4 ''2024-01-01'',
       post ''Gardening Tips'' ''Home'' 6 ''2024-03-01'']
     = [post ''AI in 2024'' ''Tech'' 4 ''2024-01-01'', post ''Gardening Tips'' ''Home'' 6 ''2024-03-01'']"
    by blast
  from 1 2 3 show ?thesis by blast
qed

subsection \<open>C4: the category step\<close>

text \<open>
  C4. For a non-empty selection the category step keeps exactly the records whose
  category is the selected string, character for character, in their order; an empty
  selection keeps every record. In applyFiltersAndSorting the category step works on
  the result of the search step.
\<close>

theorem category_step_keeps:
  "(c \<noteq> [] \<longrightarrow>
      category_step c xs = filter (\<lambda>b. category b = Some c) xs
      \<and> (b \<in> set (category_step c xs) \<longleftrightarrow> b \<in> set xs \<and> category b = Some c))
   \<and> category_step [] xs = xs
   \<and> (searchInput st = Some v \<and> filterSelect st = Some c \<and> sortSelect st = Some [] \<longrightarrow>
        view (snd (applyFiltersAndSorting H st)) = category_step c (search_step H v (master st)))"
proof -
  have f: "category_match c = (\<lambda>b. category b = Some c)"
    by (rule ext) (simp add: category_match_def)
  have 1: "c \<noteq> [] \<longrightarrow>
      category_step c xs = filter (\<lambda>b. category b = Some c) xs
      \<and> (b \<in> set (category_step c xs) \<longleftrightarrow> b \<in> set xs \<and> category b = Some c)"
    by (simp add: category_step_def f)
  have 2: "category_step [] xs = xs"
    by (simp add: category_step_def)
  have 3: "searchInput st = Some v \<and> filterSelect st = Some c \<and> sortSelect st = Some [] \<longrightarrow>
        view (snd (applyFiltersAndSorting H st)) = category_step c (search_step H v (master st))"
    using apply_view [of st v c "[]" H]
    by (simp add: view_def master_def deriveView_def sort_step_def)
  from 1 2 3 show ?thesis by blast
qed

theorem category_step_keeps_witness:
  "category_step ''Startups'' [post ''One'' ''Startups'' 4 ''2024-01-01'',
       post ''Two'' ''startups'' 6 ''2024-03-01'', post ''Three'' ''Gadgets'' 2 ''2024-03-01'']
     = [post ''One'' ''Startups'' 4 ''2024-01-01'']"
proof -
  have n: "''Startups'' \<noteq> []" by simp
  from category_step_keeps [of "''Startups''" "[post ''One'' ''Startups'' 4 ''2024-01-01'',
       post ''Two'' ''startups'' 6 ''2024-03-01'', post ''Three'' ''Gadgets'' 2 ''2024-03-01'']"] n
  have "category_step ''Startups'' [post ''One'' ''Startups'' 4 ''2024-01-01'',
       post ''Two'' ''startups'' 6 ''2024-03-01'', post ''Three'' ''Gadgets'' 2 ''2024-03-01'']
     = filter (\<lambda>b. category b = Some ''Startups'') [post ''One'' ''Startups'' 4 ''2024-01-01'',
       post ''Two'' ''startups'' 6 ''2024-03-01'', post ''Three'' ''Gadgets'' 2 ''2024-03-01'']"
    by blast
  then show ?thesis by (simp add: post_def)
qed

subsection \<open>C5: the displayed slice\<close>

text \<open>
  C5. With view \<open>v\<close>, page number \<open>n\<close> and page size \<open>p\<close>, the slice that render takes is
  the first \<open>n * p\<close> records of the view, all of it when it is shorter, so its length is
  the minimum of \<open>p * n\<close> and the length of the view; the cards put on the page are the
  cards of exactly these records. Page \<open>n\<close> starts at the first record, not after page
  \<open>n - 1\<close>.
\<close>

theorem render_slice_cumulative:
  assumes "1 \<le> n" and "view st = v" and "page st = n" and "perPage st = p"
    and "listContainer st = Some old"
  shows "array_slice 0 (int (n * p)) v = take (n * p) v
       \<and> length (array_slice 0 (int (n * p)) v) = min (p * n) (length v)
       \<and> displayed (snd (render H st)) = map (blog_card H) (take (n * p) v)
       \<and> length (displayed (snd (render H st))) = min (p * n) (length v)"
proof -
  have s: "array_slice 0 (int (n * p)) v = take (n * p) v"
    by (rule array_slice_prefix)
  have l: "length (take (n * p) v) = min (p * n) (length v)"
    by (simp add: min.commute mult.commute)
  have d: "displayed (snd (render H st)) = map (blog_card H) (take (n * p) v)"
    using assms render_displayed [of st old H] by (simp add: view_def)
  from s l d show ?thesis by (simp only: length_map simp_thms)
qed

theorem render_slice_cumulative_witness:
  "length (displayed (snd (render example_host
      ((constructor full_container)\<lparr>heap := (\<lambda>a. [])(1 := replicate 25 (post ''T'' ''c'' 3 ''2024-01-01'')),
                                      page := 2\<rparr>)))) = 20"
proof -
  let ?st = "(constructor full_container)\<lparr>heap := (\<lambda>a. [])(1 := replicate 25 (post ''T'' ''c'' 3 ''2024-01-01'')),
                                      page := 2\<rparr>"
  have 1: "(1::nat) \<le> 2" by simp
  have 2: "view ?st = replicate 25 (post ''T'' ''c'' 3 ''2024-01-01'')"
    by (simp add: view_def constructor_def)
  have 3: "page ?st = 2" by simp
  have 4: "perPage ?st = 10" by (simp add: constructor_def)
  have 5: "listContainer ?st = Some Blank" by (simp add: constructor_def full_container_def)
  from render_slice_cumulative [OF 1 2 3 4 5, of example_host] show ?thesis by simp
qed

subsection \<open>C6: pagination monotonicity\<close>

text \<open>
  C6. The slice of page \<open>n\<close> is an ordered prefix of the slice of page \<open>n + 1\<close>: it is
  the first so many elements of it as it has itself. The same holds of the cards that
  render displays for the two page numbers.
\<close>

theorem page_slice_prefix:
  "array_slice 0 (int (n * p)) v
     = take (length (array_slice 0 (int (n * p)) v)) (array_slice 0 (int ((n + 1) * p)) v)
   \<and> (listContainer st \<noteq> None \<longrightarrow>
        displayed (snd (render H (st\<lparr>page := n\<rparr>)))
          = take (length (displayed (snd (render H (st\<lparr>page := n\<rparr>)))))
              (displayed (snd (render H (st\<lparr>page := n + 1\<rparr>)))))"
proof -
  have t: "take a xs = take (length (take a xs)) (take (a + b) xs)" for a b :: nat and xs :: "'x list"
    by (simp add: min_def)
  have e: "(n + 1) * p = n * p + p" by simp
  have 1: "array_slice 0 (int (n * p)) v
     = take (length (array_slice 0 (int (n * p)) v)) (array_slice 0 (int ((n + 1) * p)) v)"
    unfolding array_slice_prefix e by (rule t)
  have 2: "displayed (snd (render H (st\<lparr>page := n\<rparr>)))
          = take (length (displayed (snd (render H (st\<lparr>page := n\<rparr>)))))
              (displayed (snd (render H (st\<lparr>page := n + 1\<rparr>))))" if "listContainer st \<noteq> None"
  proof -
    from that obtain old where o: "listContainer st = Some old" by blast
    have a: "displayed (snd (render H (st\<lparr>page := n\<rparr>)))
             = map (blog_card H) (take (n * perPage st) (heap st (filteredItems st)))"
      using render_displayed [of "st\<lparr>page := n\<rparr>" old H] o by simp
    have b: "displayed (snd (render H (st\<lparr>page := n + 1\<rparr>)))
             = map (blog_card H) (take (n * perPage st + perPage st) (heap st (filteredItems st)))"
      using render_displayed [of "st\<lparr>page := n + 1\<rparr>" old H] o by (simp add: add.commute)
    show ?thesis
      unfolding a b using t [of "n * perPage st" "heap st (filteredItems st)" "perPage st"]
      by (simp add: take_map)
  qed
  from 1 2 show ?thesis by blast
qed

theorem page_slice_prefix_witness:
  "length (displayed (snd (render example_host
      ((constructor full_container)\<lparr>heap := (\<lambda>a. [])(1 := replicate 25 (post ''T'' ''c'' 3 ''2024-01-01'')),
                                      page := 1\<rparr>)))) = 10
   \<and> length (displayed (snd (render example_host
      ((constructor full_container)\<lparr>heap := (\<lambda>a. [])(1 := replicate 25 (post ''T'' ''c'' 3 ''2024-01-01'')),
                                      page := 1 + 1\<rparr>)))) = 20
   \<and> displayed (snd (render example_host
      ((constructor full_container)\<lparr>heap := (\<lambda>a. [])(1 := replicate 25 (post ''T'' ''c'' 3 ''2024-01-01'')),
                                      page := 1\<rparr>)))
     = take 10 (displayed (snd (render example_host
      ((constructor full_container)\<lparr>heap := (\<lambda>a. [])(1 := replicate 25 (post ''T'' ''c'' 3 ''2024-01-01'')),
                                      page := 1 + 1\<rparr>))))"
proof -
  let ?st = "(constructor full_container)\<lparr>heap := (\<lambda>a. [])(1 := replicate 25 (post ''T'' ''c'' 3 ''2024-01-01''))\<rparr>"
  have h: "listContainer ?st \<noteq> None"
    by (simp add: constructor_def full_container_def)
  have o: "listContainer (?st\<lparr>page := n\<rparr>) = Some Blank" for n
    by (simp add: constructor_def full_container_def)
  have a: "length (displayed (snd (render example_host (?st\<lparr>page := 1\<rparr>)))) = 10"
    using render_displayed [OF o [of 1], of example_host] by (simp add: constructor_def)
  have b: "length (displayed (snd (render example_host (?st\<lparr>page := 1 + 1\<rparr>)))) = 20"
    using render_displayed [OF o [of "1 + 1"], of example_host] by (simp add: constructor_def)
  from page_slice_prefix [of 1 _ _ ?st example_host] h
  have "displayed (snd (render example_host (?st\<lparr>page := 1\<rparr>)))
          = take (length (displayed (snd (render example_host (?st\<lparr>page := 1\<rparr>)))))
              (displayed (snd (render example_host (?st\<lparr>page := 1 + 1\<rparr>))))"
    by blast
  with a b show ?thesis by simp
qed

subsection \<open>C7: the page counter after a change of the query\<close>

text \<open>
  C7. onControlChange sets the page counter to 1 and only then recomputes the view, so
  the cards it displays are those of the first page of the new view. A change of the
  sort or of the category select runs it at once, a change of the search field runs it
  when the debounce timeout expires; after each the counter is 1. The counter is 1 in
  every state that the component can reach.
\<close>

theorem page_reset_on_change:
  "page (snd (onControlChange H st)) = 1
   \<and> (listContainer st \<noteq> None \<and> searchInput st = Some v \<and> filterSelect st = Some c
        \<and> sortSelect st = Some k \<longrightarrow>
        displayed (snd (onControlChange H st))
          = map (blog_card H) (take (1 * perPage st) (deriveView H (master st) v c k)))
   \<and> (listening st \<and> sortSelect st \<noteq> None \<longrightarrow> page (snd (dispatch H (SortChange x) st)) = 1)
   \<and> (listening st \<and> filterSelect st \<noteq> None \<longrightarrow> page (snd (dispatch H (FilterChange x) st)) = 1)
   \<and> (searchTimer st \<longrightarrow> page (snd (dispatch H SearchTimeout st)) = 1)
   \<and> (reachable H st \<longrightarrow> page st = 1)"
proof -
  have 1: "page (snd (onControlChange H st)) = 1" by (rule onControlChange_page)
  have 2: "displayed (snd (onControlChange H st))
          = map (blog_card H) (take (1 * perPage st) (deriveView H (master st) v c k))"
    if "listContainer st \<noteq> None \<and> searchInput st = Some v \<and> filterSelect st = Some c
        \<and> sortSelect st = Some k"
  proof -
    from that obtain old where "listContainer st = Some old" by blast
    with that apply_displayed [of "st\<lparr>page := 1\<rparr>" old v c k H] show ?thesis
      by (simp add: onControlChange_def master_def)
  qed
  have 3: "page (snd (dispatch H (SortChange x) st)) = 1" if "listening st \<and> sortSelect st \<noteq> None"
    using that by (auto simp add: dispatch_def onControlChange_page)
  have 4: "page (snd (dispatch H (FilterChange x) st)) = 1" if "listening st \<and> filterSelect st \<noteq> None"
    using that by (auto simp add: dispatch_def onControlChange_page)
  have 5: "page (snd (dispatch H SearchTimeout st)) = 1" if "searchTimer st"
    using that by (simp add: dispatch_def onControlChange_page)
  have 6: "reachable H st \<longrightarrow> page st = 1" using reachable_page by blast
  from 1 2 3 4 5 6 show ?thesis by blast
qed

theorem page_reset_on_change_witness:
  "page (snd (onControlChange example_host
      ((constructor full_container)\<lparr>heap := (\<lambda>a. [])(0 := [post ''A'' ''x'' 3 ''2024-01-01'',
                                                            post ''B'' ''x'' 3 ''2024-03-01'']),
         sortSelect := Some ''date'', page := 3, listening := True, searchTimer := True\<rparr>))) = 1
   \<and> displayed (snd (onControlChange example_host
      ((constructor full_container)\<lparr>heap := (\<lambda>a. [])(0 := [post ''A'' ''x'' 3 ''2024-01-01'',
                                                            post ''B'' ''x'' 3 ''2024-03-01'']),
         sortSelect := Some ''date'', page := 3, listening := True, searchTimer := True\<rparr>)))
       = map (blog_card example_host) [post ''B'' ''x'' 3 ''2024-03-01'', post ''A'' ''x'' 3 ''2024-01-01'']
   \<and> page (snd (dispatch example_host (SortChange ''category'')
      ((constructor full_container)\<lparr>heap := (\<lambda>a. [])(0 := [post ''A'' ''x'' 3 ''2024-01-01'',
                                                            post ''B'' ''x'' 3 ''2024-03-01'']),
         sortSelect := Some ''date'', page := 3, listening := True, searchTimer := True\<rparr>))) = 1
   \<and> page (snd (dispatch example_host (FilterChange ''x'')
      ((constructor full_container)\<lparr>heap := (\<lambda>a. [])(0 := [post ''A'' ''x'' 3 ''2024-01-01'',
                                                            post ''B'' ''x'' 3 ''2024-03-01'']),
         sortSelect := Some ''date'', page := 3, listening := True, searchTimer := True\<rparr>))) = 1
   \<and> page (snd (dispatch example_host SearchTimeout
      ((constructor full_container)\<lparr>heap := (\<lambda>a. [])(0 := [post ''A'' ''x'' 3 ''2024-01-01'',
                                                            post ''B'' ''x'' 3 ''2024-03-01'']),
         sortSelect := Some ''date'', page := 3, listening := True, searchTimer := True\<rparr>))) = 1
   \<and> reachable example_host
        (snd (dispatch example_host (SortChange ''date'')
           (snd (init example_host
              (Response 200 (JsonValue (Some [post ''T'' ''c'' 3 ''2024-01-01''])))
              (constructor full_container)))))
   \<and> page (snd (dispatch example_host (SortChange ''date'')
           (snd (init example_host
              (Response 200 (JsonValue (Some [post ''T'' ''c'' 3 ''2024-01-01''])))
              (constructor full_container))))) = 1"
proof -
  let ?st = "(constructor full_container)\<lparr>heap := (\<lambda>a. [])(0 := [post ''A'' ''x'' 3 ''2024-01-01'',
                                                            post ''B'' ''x'' 3 ''2024-03-01'']),
         sortSelect := Some ''date'', page := 3, listening := True, searchTimer := True\<rparr>"
  let ?r = "snd (dispatch example_host (SortChange ''date'')
           (snd (init example_host
              (Response 200 (JsonValue (Some [post ''T'' ''c'' 3 ''2024-01-01''])))
              (constructor full_container))))"
  have h: "listContainer ?st \<noteq> None \<and> searchInput ?st = Some [] \<and> filterSelect ?st = Some []
        \<and> sortSelect ?st = Some ''date''"
    by (simp add: constructor_def full_container_def)
  have l: "listening ?st \<and> sortSelect ?st \<noteq> None" "listening ?st \<and> filterSelect ?st \<noteq> None"
    "searchTimer ?st"
    by (simp_all add: constructor_def full_container_def)
  have p: "perPage ?st = 10" by (simp add: constructor_def)
  have d: "deriveView example_host (master ?st) [] [] ''date''
     = [post ''B'' ''x'' 3 ''2024-03-01'', post ''A'' ''x'' 3 ''2024-01-01'']"
    by (simp add: master_def constructor_def deriveView_def sort_step_def category_step_def
      search_step_def search_term_def or_str_def example_host_def post_def sort_compare_def
      sort_gt_def date_value_def num_minus_def)
  have r: "reachable example_host ?r"
    by (rule reachable.handled) (rule reachable.initialised)
  note t = page_reset_on_change [of example_host ?st "[]" "[]" "''date''"]
  from t have 1: "page (snd (onControlChange example_host ?st)) = 1" by blast
  from t h have "displayed (snd (onControlChange example_host ?st))
       = map (blog_card example_host)
           (take (1 * perPage ?st) (deriveView example_host (master ?st) [] [] ''date''))"
    by blast
  then have 2: "displayed (snd (onControlChange example_host ?st))
       = map (blog_card example_host) [post ''B'' ''x'' 3 ''2024-03-01'', post ''A'' ''x'' 3 ''2024-01-01'']"
    unfolding d p by simp
  from t l(1) have 3: "page (snd (dispatch example_host (SortChange ''category'') ?st)) = 1"
    by blast
  from t l(2) have 4: "page (snd (dispatch example_host (FilterChange ''x'') ?st)) = 1"
    by blast
  from t l(3) have 5: "page (snd (dispatch example_host SearchTimeout ?st)) = 1"
    by blast
  from page_reset_on_change [of example_host ?r] r have 6: "page ?r = 1" by blast
  from 1 2 3 4 5 r 6 show ?thesis by blast
qed

subsection \<open>C8: the master collection is not mutated\<close>

text \<open>
  C8. applyFiltersAndSorting works on a copy: whatever the three controls hold, also
  when the sort runs and when a missing control makes it throw, the field \<open>items\<close>
  refers to the same array afterwards and that array, like every array that existed
  before the call, has the same elements in the same order. The master array is an
  existing array in every reachable state.
\<close>

theorem master_not_mutated:
  assumes "reachable H st \<or> items st < next_addr st"
  shows "items (snd (applyFiltersAndSorting H st)) = items st
       \<and> master (snd (applyFiltersAndSorting H st)) = master st
       \<and> (\<forall>a. a < next_addr st \<longrightarrow> heap (snd (applyFiltersAndSorting H st)) a = heap st a)"
proof -
  from assms have "items st < next_addr st" using reachable_alloc by blast
  then show ?thesis by (simp add: master_def apply_fields apply_frame)
qed

theorem master_not_mutated_witness:
  "master (snd (applyFiltersAndSorting example_host
      ((constructor full_container)\<lparr>heap := (\<lambda>a. [])(0 := [post ''A'' ''x'' 3 ''2024-01-01'',
                                                            post ''B'' ''x'' 3 ''2024-03-01'']),
                                      sortSelect := Some ''date''\<rparr>)))
     = [post ''A'' ''x'' 3 ''2024-01-01'', post ''B'' ''x'' 3 ''2024-03-01'']
   \<and> view (snd (applyFiltersAndSorting example_host
      ((constructor full_container)\<lparr>heap := (\<lambda>a. [])(0 := [post ''A'' ''x'' 3 ''2024-01-01'',
                                                            post ''B'' ''x'' 3 ''2024-03-01'']),
                                      sortSelect := Some ''date''\<rparr>)))
     = [post ''B'' ''x'' 3 ''2024-03-01'', post ''A'' ''x'' 3 ''2024-01-01'']"
proof -
  let ?st = "(constructor full_container)\<lparr>heap := (\<lambda>a. [])(0 := [post ''A'' ''x'' 3 ''2024-01-01'',
                                                            post ''B'' ''x'' 3 ''2024-03-01'']),
                                      sortSelect := Some ''date''\<rparr>"
  have h: "reachable example_host ?st \<or> items ?st < next_addr ?st" by (simp add: constructor_def)
  have m: "master ?st = [post ''A'' ''x'' 3 ''2024-01-01'', post ''B'' ''x'' 3 ''2024-03-01'']"
    by (simp add: master_def constructor_def)
  have c: "searchInput ?st = Some []" "filterSelect ?st = Some []" "sortSelect ?st = Some ''date''"
    by (simp_all add: constructor_def full_container_def)
  have v: "view (snd (applyFiltersAndSorting example_host ?st))
           = deriveView example_host (master ?st) [] [] ''date''"
    using apply_view [OF c, of example_host] by (simp add: view_def master_def)
  have d: "deriveView example_host [post ''A'' ''x'' 3 ''2024-01-01'', post ''B'' ''x'' 3 ''2024-03-01''] [] [] ''date''
     = [post ''B'' ''x'' 3 ''2024-03-01'', post ''A'' ''x'' 3 ''2024-01-01'']"
    by (simp add: deriveView_def sort_step_def category_step_def search_step_def search_term_def
      or_str_def example_host_def post_def sort_compare_def sort_gt_def date_value_def num_minus_def)
  from master_not_mutated [OF h] m v d show ?thesis by simp
qed

subsection \<open>C9: the loading indicator\<close>

text \<open>
  C9. init first shows the loading indicator. Whatever the fetch does (the request is
  rejected, the status is not a success, the body is not JSON or not an array, or the
  load succeeds) and whatever the page lacks, when init is left the indicator, if the
  page has one, carries the class hidden.
\<close>

theorem loading_hidden_on_exit:
  "loadingIndicator (showLoading st) = map_option (\<lambda>h. False) (loadingIndicator st)
   \<and> loadingIndicator (snd (init H r st)) = map_option (\<lambda>h. True) (loadingIndicator st)
   \<and> (\<forall>h. loadingIndicator (snd (init H r st)) = Some h \<longrightarrow> h)"
proof -
  have 1: "loadingIndicator (showLoading st) = map_option (\<lambda>h. False) (loadingIndicator st)"
    by (simp add: showLoading_def)
  have 2: "loadingIndicator (snd (init H r st)) = map_option (\<lambda>h. True) (loadingIndicator st)"
    by (rule init_loading)
  have 3: "\<forall>h. loadingIndicator (snd (init H r st)) = Some h \<longrightarrow> h"
    unfolding 2 by auto
  from 1 2 3 show ?thesis by blast
qed

theorem loading_hidden_on_exit_witness:
  "loadingIndicator (snd (init example_host (Rejected (TypeError ''Failed to fetch''))
      ((constructor full_container)\<lparr>loadingIndicator := Some False\<rparr>))) = Some True
   \<and> loadingIndicator (snd (init example_host (Response 404 (JsonValue None))
      ((constructor full_container)\<lparr>loadingIndicator := Some False\<rparr>))) = Some True
   \<and> loadingIndicator (snd (init example_host (Response 200 (JsonRejected (Error ''Unexpected token'')))
      ((constructor full_container)\<lparr>loadingIndicator := Some False\<rparr>))) = Some True
   \<and> loadingIndicator (snd (init example_host (Response 200 (JsonValue None))
      ((constructor full_container)\<lparr>loadingIndicator := Some False\<rparr>))) = Some True
   \<and> loadingIndicator (snd (init example_host (Response 200 (JsonValue (Some [post ''T'' ''c'' 3 ''2024-01-01''])))
      ((constructor full_container)\<lparr>loadingIndicator := Some False\<rparr>))) = Some True"
  using loading_hidden_on_exit [of "(constructor full_container)\<lparr>loadingIndicator := Some False\<rparr>" example_host]
  by simp

subsection \<open>C10: a reading time of zero\<close>

text \<open>
  C10. A record whose reading time is present and equal to 0 gets the card text
  5 min read, because 0 is falsy and the display default replaces it; the comparator of
  the sort by reading time uses 0 for the same record.
\<close>

theorem zero_reading_time:
  assumes "reading_time b = Some 0"
  shows "card_reading_time (blog_card H b) = ''5 min read''
       \<and> sort_compare H ''reading_time'' b c = Some (0 - or_num (reading_time c) 0)
       \<and> sort_compare H ''reading_time'' c b = Some (or_num (reading_time c) 0 - 0)"
proof -
  have n: "nat_toString 5 = ''5''" by code_simp
  from assms n show ?thesis
    by (simp add: blog_card_def or_num_def int_toString_def sort_compare_def)
qed

theorem zero_reading_time_witness:
  "card_reading_time (blog_card example_host (post ''T'' ''c'' 0 ''2024-01-01'')) = ''5 min read''
   \<and> sort_compare example_host ''reading_time'' (post ''T'' ''c'' 0 ''2024-01-01'')
        (post ''U'' ''c'' 3 ''2024-01-01'') = Some (- 3)"
proof -
  have h: "reading_time (post ''T'' ''c'' 0 ''2024-01-01'') = Some 0" by (simp add: post_def)
  from zero_reading_time [OF h, of example_host "post ''U'' ''c'' 3 ''2024-01-01''"]
  show ?thesis by (simp add: or_num_def post_def)
qed

end
